theory Spec2Isabelle
  imports Main "HOL-Library.Word"
begin

section \<open>Data structures of the catalog generator\<close>

text \<open>
  The structs of \<^verbatim>\<open>cmd/generator/main.go\<close>. Go strings are byte strings, here
  \<^typ>\<open>string\<close>; \<^verbatim>\<open>int64\<close> is \<^typ>\<open>64 word\<close> (read with \<^term>\<open>sint\<close>);
  a Go map is a partial function. Several structs share field names, so the
  selectors are written qualified (\<open>SourceApp.ID\<close>, \<open>CatalogApp.ID\<close>, ...).
\<close>

record SourceApp =
  ID :: string
  Name :: string
  Description :: string
  IconURL :: string
  PackageName :: string
  InstallType :: string
  Strategy :: string
  Config :: "string \<rightharpoonup> string"

record CatalogApp =
  ID :: string
  Name :: string
  Description :: string
  IconURL :: string
  PackageName :: string
  InstallType :: string
  Version :: string
  DownloadURL :: string
  Checksum :: string
  Size :: "64 word"

text \<open>\<^verbatim>\<open>LastUpdated\<close> is a \<^verbatim>\<open>time.Time\<close>; only its identity matters, so it is a
  number (the zero time is \<open>0\<close>).\<close>

record Catalog =
  LastUpdated :: nat
  Apps :: "string \<rightharpoonup> CatalogApp"

record Asset =
  Name :: string
  BrowserDownloadURL :: string
  Size :: "64 word"

record GithubRelease =
  TagName :: string
  Assets :: "Asset list"

section \<open>The outside world\<close>

text \<open>
  Requests and responses of \<^verbatim>\<open>net/http\<close>, reduced to what the program reads.
  \<open>RequestURL\<close> is \<^verbatim>\<open>resp.Request.URL.String()\<close>, the URL after redirects.
  \<open>ContentLength\<close> is \<^verbatim>\<open>resp.ContentLength\<close>: \<^verbatim>\<open>net/http\<close> documents that
  the value \<open>-1\<close> means the length is unknown, which is what it reports for a
  response without a \<^verbatim>\<open>Content-Length\<close> header. \<open>Body\<close> is the byte stream of
  the body and \<open>BodyReadError\<close> says that reading it ends in an I/O error
  instead of end-of-file.
\<close>

record Request =
  Method :: string
  URL :: string
  Header :: "(string \<times> string) list"

record Response =
  StatusCode :: int
  RequestURL :: string
  ContentLength :: "64 word"
  Body :: "8 word list"
  BodyReadError :: bool

text \<open>
  Everything the program obtains from its environment or from library code
  outside the repository is a field of \<open>World\<close>:
  \<^item> \<open>Getenv\<close>: \<^verbatim>\<open>os.Getenv\<close>;
  \<^item> \<open>Today\<close>: \<^verbatim>\<open>time.Now().Format("2006.01.02")\<close>; \<open>Now\<close>: \<^verbatim>\<open>time.Now()\<close>;
  \<^item> \<open>NewRequestOK\<close>: whether \<^verbatim>\<open>http.NewRequest\<close> accepts the URL (it returns
    a nil request and an error otherwise);
  \<^item> \<open>Do\<close>: \<^verbatim>\<open>client.Do\<close>, \<open>None\<close> when it returns an error (transport
    failure, timeout);
  \<^item> \<open>DecodeRelease\<close>: \<^verbatim>\<open>json.NewDecoder(resp.Body).Decode(&rel)\<close>, \<open>None\<close> when
    it returns an error;
  \<^item> \<open>Compile\<close>: \<^verbatim>\<open>regexp.Compile\<close>, \<open>None\<close> for a pattern with a syntax error,
    otherwise the compiled pattern's \<^verbatim>\<open>FindStringSubmatch\<close>;
  \<^item> \<open>Sha256Hex\<close>: \<^verbatim>\<open>hex.EncodeToString\<close> of the SHA-256 digest of a byte stream.

  Upstream answers the same request in the same way throughout a run.
\<close>

record World =
  Getenv :: "string \<Rightarrow> string"
  Today :: string
  Now :: nat
  NewRequestOK :: "string \<Rightarrow> bool"
  Do :: "Request \<Rightarrow> Response option"
  DecodeRelease :: "Response \<Rightarrow> GithubRelease option"
  Compile :: "string \<Rightarrow> (string \<Rightarrow> string list) option"
  Sha256Hex :: "8 word list \<Rightarrow> string"

section \<open>Errors and panics\<close>

text \<open>One constructor for each place where the source builds or forwards an
  \<^verbatim>\<open>error\<close>. A panic is not an error value: it unwinds \<^verbatim>\<open>main\<close>.\<close>

datatype error =
    TransportError
  | GithubStatus int
  | DecodeError
  | AssetNotFound string
  | StatusInvalid int
  | RegexFailed string
  | UnknownStrategy string
  | HttpStatus int
  | CopyError

datatype 'a result = Ok 'a | Err error | Panic

section \<open>String helpers of the Go library\<close>

text \<open>\<^verbatim>\<open>strings.ToLower\<close> on ASCII letters; bytes outside \<open>A\<close>..\<open>Z\<close> are kept
  (the Unicode case mapping of non-ASCII text is not modelled).\<close>

definition ToLowerChar :: "char \<Rightarrow> char" where
  "ToLowerChar c =
     (let n = (of_char c :: nat) in if 65 \<le> n \<and> n \<le> 90 then char_of (n + 32) else c)"

definition ToLower :: "string \<Rightarrow> string" where
  "ToLower s = map ToLowerChar s"

definition HasPrefix :: "string \<Rightarrow> string \<Rightarrow> bool" where
  "HasPrefix s p = (length p \<le> length s \<and> take (length p) s = p)"

definition TrimPrefix :: "string \<Rightarrow> string \<Rightarrow> string" where
  "TrimPrefix s p = (if HasPrefix s p then drop (length p) s else s)"

fun Contains :: "string \<Rightarrow> string \<Rightarrow> bool" where
  "Contains [] substr = (substr = [])"
| "Contains (c # s) substr = (HasPrefix (c # s) substr \<or> Contains s substr)"

text \<open>Reading a Go map at a missing key gives the zero value, the empty string.\<close>

definition cfg :: "(string \<rightharpoonup> string) \<Rightarrow> string \<Rightarrow> string" where
  "cfg m k = (case m k of None \<Rightarrow> [] | Some v \<Rightarrow> v)"

section \<open>Strategies\<close>

text \<open>The loop over \<^verbatim>\<open>rel.Assets\<close> in \<^verbatim>\<open>checkGithub\<close>: the asset name is
  lower-cased, the filter is used as configured.\<close>

fun find_asset :: "string \<Rightarrow> string \<Rightarrow> Asset list \<Rightarrow> (string \<times> string \<times> 64 word) result" where
  "find_asset version assetFilter [] = Err (AssetNotFound assetFilter)"
| "find_asset version assetFilter (asset # rest) =
     (if Contains (ToLower (Asset.Name asset)) assetFilter
      then Ok (version, BrowserDownloadURL asset, Asset.Size asset)
      else find_asset version assetFilter rest)"

text \<open>\<^verbatim>\<open>checkGithub\<close>. The error of \<^verbatim>\<open>http.NewRequest\<close> is dropped by the source, so
  a rejected URL leaves a nil request, and both \<^verbatim>\<open>req.Header.Set\<close> and
  \<^verbatim>\<open>client.Do(req)\<close> dereference it: a panic.\<close>

definition checkGithub :: "World \<Rightarrow> string \<Rightarrow> string \<Rightarrow> (string \<times> string \<times> 64 word) result" where
  "checkGithub w repo assetFilter =
     (let url = ''https://api.github.com/repos/'' @ repo @ ''/releases/latest'';
          token = Getenv w ''GITHUB_TOKEN'';
          hdr = (if token \<noteq> [] then [(''Authorization'', ''token '' @ token)] else [])
      in if \<not> NewRequestOK w url then Panic
         else case Do w \<lparr>Method = ''GET'', URL = url, Header = hdr\<rparr> of
                None \<Rightarrow> Err TransportError
              | Some resp \<Rightarrow>
                  if StatusCode resp \<noteq> 200 then Err (GithubStatus (StatusCode resp))
                  else (case DecodeRelease w resp of
                          None \<Rightarrow> Err DecodeError
                        | Some rel \<Rightarrow>
                            find_asset (TrimPrefix (TagName rel) ''v'') assetFilter
                              (Assets rel)))"

text \<open>\<^verbatim>\<open>checkDirectHead\<close>. \<^verbatim>\<open>regexp.MustCompile\<close> panics where \<^verbatim>\<open>regexp.Compile\<close>
  returns an error; it is reached only after the status check.\<close>

definition checkDirectHead :: "World \<Rightarrow> string \<Rightarrow> string \<Rightarrow> (string \<times> string \<times> 64 word) result" where
  "checkDirectHead w startURL versionRegex =
     (if \<not> NewRequestOK w startURL then Panic
      else case Do w \<lparr>Method = ''HEAD'', URL = startURL,
                      Header = [(''User-Agent'',
                                 ''Mozilla/5.0 (X11; Linux x86_64) AppleWebKit/537.36'')]\<rparr> of
             None \<Rightarrow> Err TransportError
           | Some resp \<Rightarrow>
               if StatusCode resp \<noteq> 200 then Err (StatusInvalid (StatusCode resp))
               else let finalURL = RequestURL resp;
                        size = ContentLength resp
                    in (case Compile w versionRegex of
                          None \<Rightarrow> Panic
                        | Some re \<Rightarrow>
                            let matches = re finalURL
                            in if length matches < 2 then Err (RegexFailed finalURL)
                               else Ok (matches ! 1, finalURL, size)))"

definition checkStrategy :: "World \<Rightarrow> SourceApp \<Rightarrow> (string \<times> string \<times> 64 word) result" where
  "checkStrategy w src =
     (if Strategy src = ''github_release''
        then checkGithub w (cfg (Config src) ''repo'') (cfg (Config src) ''asset_filter'')
      else if Strategy src = ''direct_url_head''
        then checkDirectHead w (cfg (Config src) ''url'') (cfg (Config src) ''regex'')
      else if Strategy src = ''direct_static''
        then Ok (Today w, cfg (Config src) ''url'', 0)
      else Err (UnknownStrategy (Strategy src)))"

section \<open>Download and hash\<close>

text \<open>\<^verbatim>\<open>downloadAndHash\<close>. \<^verbatim>\<open>http.Get\<close> returns the error of a rejected URL;
  \<^verbatim>\<open>io.Copy\<close> returns the number of bytes it streamed into the hasher.\<close>

definition downloadAndHash :: "World \<Rightarrow> string \<Rightarrow> (string \<times> 64 word) result" where
  "downloadAndHash w url =
     (if \<not> NewRequestOK w url then Err TransportError
      else case Do w \<lparr>Method = ''GET'', URL = url, Header = []\<rparr> of
             None \<Rightarrow> Err TransportError
           | Some resp \<Rightarrow>
               if StatusCode resp \<noteq> 200 then Err (HttpStatus (StatusCode resp))
               else if BodyReadError resp then Err CopyError
               else Ok (Sha256Hex w (Body resp), of_nat (length (Body resp))))"

section \<open>The reconciliation loop\<close>

text \<open>The variables of \<^verbatim>\<open>main\<close> that the loop updates, and \<open>fetched\<close>, a ghost
  log of the URLs handed to \<^verbatim>\<open>downloadAndHash\<close>, in order. \<^verbatim>\<open>changesCount\<close> is a
  Go \<^verbatim>\<open>int\<close>; it counts list elements and cannot overflow.\<close>

record loop_state =
  newCatalog :: Catalog
  changesCount :: nat
  fetched :: "string list"

definition put_app :: "string \<Rightarrow> CatalogApp \<Rightarrow> loop_state \<Rightarrow> loop_state" where
  "put_app k a st = st\<lparr>newCatalog := (newCatalog st)\<lparr>Apps := (Apps (newCatalog st))(k \<mapsto> a)\<rparr>\<rparr>"

definition log_fetch :: "string \<Rightarrow> loop_state \<Rightarrow> loop_state" where
  "log_fetch url st = st\<lparr>fetched := fetched st @ [url]\<rparr>"

text \<open>The zero value that \<^verbatim>\<open>oldApp\<close> holds when the key is missing.\<close>

definition zeroCatalogApp :: CatalogApp where
  "zeroCatalogApp = \<lparr>ID = [], Name = [], Description = [], IconURL = [], PackageName = [],
     InstallType = [], Version = [], DownloadURL = [], Checksum = [], Size = 0\<rparr>"

text \<open>One iteration of the loop of \<^verbatim>\<open>main\<close>; \<open>None\<close> is a panic.\<close>

definition process_app :: "World \<Rightarrow> Catalog \<Rightarrow> SourceApp \<Rightarrow> loop_state \<Rightarrow> loop_state option" where
  "process_app w oldCatalog src st =
     (case checkStrategy w src of
        Panic \<Rightarrow> None
      | Err e \<Rightarrow>
          (case Apps oldCatalog (SourceApp.ID src) of
             Some old \<Rightarrow> Some (put_app (SourceApp.ID src) old st)
           | None \<Rightarrow> Some st)
      | Ok (onlineVer, onlineURL, onlineSize) \<Rightarrow>
          let forceCheck = (Strategy src = ''direct_static'');
              exists = (Apps oldCatalog (SourceApp.ID src) \<noteq> None);
              oldApp = (case Apps oldCatalog (SourceApp.ID src) of
                          Some a \<Rightarrow> a | None \<Rightarrow> zeroCatalogApp)
          in if exists \<and> \<not> forceCheck \<and> Version oldApp = onlineVer
             then Some (put_app (SourceApp.ID src) oldApp st)
             else let st1 = log_fetch onlineURL st
                  in (case downloadAndHash w onlineURL of
                       Panic \<Rightarrow> None
                     | Err e \<Rightarrow>
                         Some (if exists then put_app (SourceApp.ID src) oldApp st1 else st1)
                     | Ok (checksum, downloadedSize) \<Rightarrow>
                         if forceCheck \<and> exists \<and> Checksum oldApp = checksum
                         then Some (put_app (SourceApp.ID src) oldApp st1)
                         else let finalSize = (if onlineSize = 0 then downloadedSize
                                               else onlineSize);
                                  newApp = \<lparr>ID = SourceApp.ID src,
                                            Name = SourceApp.Name src,
                                            Description = SourceApp.Description src,
                                            IconURL = SourceApp.IconURL src,
                                            PackageName = SourceApp.PackageName src,
                                            InstallType = SourceApp.InstallType src,
                                            Version = onlineVer,
                                            DownloadURL = onlineURL,
                                            Checksum = checksum,
                                            Size = finalSize\<rparr>
                              in Some ((put_app (SourceApp.ID src) newApp st1)
                                        \<lparr>changesCount := changesCount st1 + 1\<rparr>)))"

fun run_loop :: "World \<Rightarrow> Catalog \<Rightarrow> SourceApp list \<Rightarrow> loop_state \<Rightarrow> loop_state option" where
  "run_loop w oldCatalog [] st = Some st"
| "run_loop w oldCatalog (src # rest) st =
     (case process_app w oldCatalog src st of
        None \<Rightarrow> None
      | Some st' \<Rightarrow> run_loop w oldCatalog rest st')"

section \<open>The catalog file and \<open>main\<close>\<close>

text \<open>
  The file \<^verbatim>\<open>catalog.json\<close> is the catalog last serialised into it, \<open>None\<close>
  while it does not exist. \<^verbatim>\<open>loadCatalog\<close> gives an empty catalog for a missing
  file and otherwise the \<^verbatim>\<open>apps\<close> mapping of the file; it never reads the
  timestamp. JSON encoding and decoding are taken to be inverse to each other,
  and the write to succeed.
\<close>

definition loadCatalog :: "Catalog option \<Rightarrow> Catalog" where
  "loadCatalog file =
     (case file of
        None \<Rightarrow> \<lparr>LastUpdated = 0, Apps = Map.empty\<rparr>
      | Some c \<Rightarrow> \<lparr>LastUpdated = 0, Apps = Apps c\<rparr>)"

definition saveCatalog :: "Catalog \<Rightarrow> Catalog option" where
  "saveCatalog catalog = Some catalog"

definition initial_state :: "World \<Rightarrow> loop_state" where
  "initial_state w =
     \<lparr>newCatalog = \<lparr>LastUpdated = Now w, Apps = Map.empty\<rparr>, changesCount = 0, fetched = []\<rparr>"

text \<open>What a run that returns leaves behind: the catalog file, whether
  \<^verbatim>\<open>saveCatalog\<close> was called, and the final loop variables.\<close>

record report =
  catalog_json :: "Catalog option"
  saved :: bool
  final :: loop_state

text \<open>\<^verbatim>\<open>main\<close>, given the result of \<^verbatim>\<open>loadSources\<close> and the catalog file; \<open>None\<close>
  when the run is aborted by a panic, which leaves the file as it was.\<close>

definition main :: "World \<Rightarrow> SourceApp list \<Rightarrow> Catalog option \<Rightarrow> report option" where
  "main w sources file =
     (let oldCatalog = loadCatalog file
      in case run_loop w oldCatalog sources (initial_state w) of
           None \<Rightarrow> None
         | Some st \<Rightarrow>
             if 0 < changesCount st \<or> dom (Apps oldCatalog) = {}
             then Some \<lparr>catalog_json = saveCatalog (newCatalog st), saved = True, final = st\<rparr>
             else Some \<lparr>catalog_json = file, saved = False, final = st\<rparr>)"

section \<open>The paths of one iteration\<close>

text \<open>Names for the conditions that the loop body tests, for the entry that its
  update path assembles, and for the carry-forward of a prior entry.\<close>

text \<open>The test of the fast path: a prior entry exists, the strategy is not
  \<open>direct_static\<close>, and the prior version is the resolved one.\<close>

definition version_skip :: "Catalog \<Rightarrow> SourceApp \<Rightarrow> string \<Rightarrow> bool" where
  "version_skip old src v =
     (case Apps old (SourceApp.ID src) of
        None \<Rightarrow> False
      | Some a \<Rightarrow> Strategy src \<noteq> ''direct_static'' \<and> Version a = v)"

text \<open>The test after the download: the strategy is \<open>direct_static\<close>, a prior
  entry exists, and its checksum is the computed one.\<close>

definition hash_skip :: "Catalog \<Rightarrow> SourceApp \<Rightarrow> string \<Rightarrow> bool" where
  "hash_skip old src c =
     (case Apps old (SourceApp.ID src) of
        None \<Rightarrow> False
      | Some a \<Rightarrow> Strategy src = ''direct_static'' \<and> Checksum a = c)"

text \<open>The value of \<^verbatim>\<open>newApp\<close> on the update path.\<close>

definition new_entry :: "SourceApp \<Rightarrow> string \<Rightarrow> string \<Rightarrow> string \<Rightarrow> 64 word \<Rightarrow> CatalogApp" where
  "new_entry src v u c n =
     \<lparr>ID = SourceApp.ID src,
      Name = SourceApp.Name src,
      Description = SourceApp.Description src,
      IconURL = SourceApp.IconURL src,
      PackageName = SourceApp.PackageName src,
      InstallType = SourceApp.InstallType src,
      Version = v,
      DownloadURL = u,
      Checksum = c,
      Size = n\<rparr>"

text \<open>Carry-forward: store the prior entry if there is one, else store nothing.\<close>

definition carry :: "string \<Rightarrow> CatalogApp option \<Rightarrow> loop_state \<Rightarrow> loop_state" where
  "carry k prior st = (case prior of None \<Rightarrow> st | Some a \<Rightarrow> put_app k a st)"

text \<open>The application reaches the update path: resolution succeeds, the fast path
  is not taken, the download succeeds, and the hash test does not skip.\<close>

definition genuine_update :: "World \<Rightarrow> Catalog \<Rightarrow> SourceApp \<Rightarrow> bool" where
  "genuine_update w old src =
     (case checkStrategy w src of
        Ok (v, u, s) \<Rightarrow>
          \<not> version_skip old src v \<and>
          (case downloadAndHash w u of
             Ok (c, n) \<Rightarrow> \<not> hash_skip old src c
           | Err e \<Rightarrow> False
           | Panic \<Rightarrow> False)
      | Err e \<Rightarrow> False
      | Panic \<Rightarrow> False)"

text \<open>The two failures of an iteration: \<^verbatim>\<open>checkStrategy\<close> returns an error, or the
  download is attempted and \<^verbatim>\<open>downloadAndHash\<close> returns an error.\<close>

definition resolution_or_download_fails :: "World \<Rightarrow> Catalog \<Rightarrow> SourceApp \<Rightarrow> bool" where
  "resolution_or_download_fails w old src =
     (case checkStrategy w src of
        Err e \<Rightarrow> True
      | Panic \<Rightarrow> False
      | Ok (v, u, s) \<Rightarrow>
          \<not> version_skip old src v \<and>
          (case downloadAndHash w u of
             Err e \<Rightarrow> True
           | Ok (c, n) \<Rightarrow> False
           | Panic \<Rightarrow> False))"

text \<open>The entry that the next run would load for a key from the file a run left.\<close>

definition persisted_entry :: "string \<Rightarrow> report \<Rightarrow> CatalogApp option" where
  "persisted_entry k r = Apps (loadCatalog (catalog_json r)) k"

text \<open>The request that \<^verbatim>\<open>checkDirectHead\<close> sends.\<close>

definition head_request :: "string \<Rightarrow> Request" where
  "head_request startURL =
     \<lparr>Method = ''HEAD'', URL = startURL,
      Header = [(''User-Agent'', ''Mozilla/5.0 (X11; Linux x86_64) AppleWebKit/537.36'')]\<rparr>"

section \<open>Sample inputs\<close>

text \<open>A world with one GitHub release, one redirecting download page and one
  static link, and a descriptor for each strategy. The digest function of the
  sample world is a stand-in.\<close>

definition sample_world :: World where
  "sample_world =
     \<lparr>Getenv = (\<lambda>k. []),
      Today = ''2024.05.06'',
      Now = 100,
      NewRequestOK = (\<lambda>u. True),
      Do = (\<lambda>req.
        if URL req = ''https://api.github.com/repos/acme/tool/releases/latest''
          then Some \<lparr>StatusCode = 200, RequestURL = URL req, ContentLength = - 1,
                      Body = [], BodyReadError = False\<rparr>
        else if URL req = ''https://dl.example.org/tool-linux.deb''
          then Some \<lparr>StatusCode = 200, RequestURL = URL req, ContentLength = 3,
                      Body = [1, 2, 3], BodyReadError = False\<rparr>
        else if URL req = ''https://example.org/latest''
          then Some \<lparr>StatusCode = 200,
                      RequestURL = ''https://example.org/files/editor-3.1.tar.gz'',
                      ContentLength = - 1, Body = [], BodyReadError = False\<rparr>
        else if URL req = ''https://example.org/files/editor-3.1.tar.gz''
          then Some \<lparr>StatusCode = 200, RequestURL = URL req, ContentLength = 5,
                      Body = [7, 7, 7, 7, 7], BodyReadError = False\<rparr>
        else if URL req = ''https://example.org/chrome.deb''
          then Some \<lparr>StatusCode = 200, RequestURL = URL req, ContentLength = 2,
                      Body = [9, 9], BodyReadError = False\<rparr>
        else None),
      DecodeRelease = (\<lambda>resp.
        Some \<lparr>TagName = ''v1.2.0'',
              Assets = [\<lparr>Name = ''Tool-Windows.exe'',
                         BrowserDownloadURL = ''https://dl.example.org/tool-windows.exe'',
                         Size = 2000\<rparr>,
                        \<lparr>Name = ''Tool-Linux.deb'',
                         BrowserDownloadURL = ''https://dl.example.org/tool-linux.deb'',
                         Size = 1000\<rparr>]\<rparr>),
      Compile = (\<lambda>p.
        if p = ''editor-([0-9.]+)[.]tar''
        then Some (\<lambda>u. if u = ''https://example.org/files/editor-3.1.tar.gz''
                        then [''editor-3.1.tar'', ''3.1''] else [])
        else None),
      Sha256Hex = (\<lambda>bs. if bs = [1, 2, 3] then ''aa11'' else if bs = [9, 9] then ''bb22''
                         else ''cc33'')\<rparr>"

definition sample_github :: SourceApp where
  "sample_github =
     \<lparr>SourceApp.ID = ''tool'', SourceApp.Name = ''Tool'', SourceApp.Description = ''A tool'',
      SourceApp.IconURL = ''https://example.org/tool.png'', SourceApp.PackageName = ''tool'',
      SourceApp.InstallType = ''deb'', Strategy = ''github_release'',
      Config = [''repo'' \<mapsto> ''acme/tool'', ''asset_filter'' \<mapsto> ''linux'']\<rparr>"

definition sample_head :: SourceApp where
  "sample_head =
     \<lparr>SourceApp.ID = ''editor'', SourceApp.Name = ''Editor'',
      SourceApp.Description = ''An editor'',
      SourceApp.IconURL = ''https://example.org/editor.png'',
      SourceApp.PackageName = ''editor'', SourceApp.InstallType = ''tar'',
      Strategy = ''direct_url_head'',
      Config = [''url'' \<mapsto> ''https://example.org/latest'',
                ''regex'' \<mapsto> ''editor-([0-9.]+)[.]tar'']\<rparr>"

definition sample_static :: SourceApp where
  "sample_static =
     \<lparr>SourceApp.ID = ''chrome'', SourceApp.Name = ''Chrome'',
      SourceApp.Description = ''A browser'',
      SourceApp.IconURL = ''https://example.org/chrome.png'',
      SourceApp.PackageName = ''chrome'', SourceApp.InstallType = ''deb'',
      Strategy = ''direct_static'',
      Config = [''url'' \<mapsto> ''https://example.org/chrome.deb'']\<rparr>"

definition sample_entry :: "string \<Rightarrow> string \<Rightarrow> string \<Rightarrow> CatalogApp" where
  "sample_entry k v c =
     \<lparr>ID = k, Name = ''Old name'', Description = ''Old description'',
      IconURL = ''https://example.org/old.png'', PackageName = ''old'', InstallType = ''deb'',
      Version = v, DownloadURL = ''https://example.org/old'', Checksum = c, Size = 42\<rparr>"

definition sample_state :: loop_state where
  "sample_state = \<lparr>newCatalog = \<lparr>LastUpdated = 100, Apps = Map.empty\<rparr>, changesCount = 0, fetched = []\<rparr>"

definition offline_world :: World where
  "offline_world = sample_world\<lparr>Do := (\<lambda>req. None)\<rparr>"

definition sample_old :: Catalog where
  "sample_old =
     \<lparr>LastUpdated = 50,
      Apps = [''tool'' \<mapsto> sample_entry ''tool'' ''1.2.0'' ''aa11'',
              ''chrome'' \<mapsto> sample_entry ''chrome'' ''2024.01.01'' ''bb22'']\<rparr>"

definition removed_catalog :: Catalog where
  "removed_catalog = \<lparr>LastUpdated = 50, Apps = [''gone'' \<mapsto> sample_entry ''gone'' ''1.0'' ''dd44'']\<rparr>"

definition uppercase_filter_app :: SourceApp where
  "uppercase_filter_app =
     sample_github\<lparr>Config := [''repo'' \<mapsto> ''acme/tool'', ''asset_filter'' \<mapsto> ''Linux'']\<rparr>"

definition bad_regex_app :: SourceApp where
  "bad_regex_app =
     sample_head\<lparr>Config := [''url'' \<mapsto> ''https://example.org/latest'',
                             ''regex'' \<mapsto> ''editor-([0-9'']\<rparr>"

definition bad_regex_unreachable_app :: SourceApp where
  "bad_regex_unreachable_app =
     sample_head\<lparr>Config := [''url'' \<mapsto> ''https://example.org/missing'',
                             ''regex'' \<mapsto> ''editor-([0-9'']\<rparr>"

section \<open>Properties of one iteration and of the loop\<close>

lemma put_app_simps:
  "Apps (newCatalog (put_app k a st)) = (Apps (newCatalog st))(k \<mapsto> a)"
  "LastUpdated (newCatalog (put_app k a st)) = LastUpdated (newCatalog st)"
  "changesCount (put_app k a st) = changesCount st"
  "fetched (put_app k a st) = fetched st"
  by (simp_all add: put_app_def)

lemma log_fetch_simps:
  "newCatalog (log_fetch u st) = newCatalog st"
  "changesCount (log_fetch u st) = changesCount st"
  "fetched (log_fetch u st) = fetched st @ [u]"
  by (simp_all add: log_fetch_def)

lemma process_app_strategy_error:
  assumes "checkStrategy w src = Err e"
  shows "process_app w old src st =
           Some (case Apps old (SourceApp.ID src) of
                   Some a \<Rightarrow> put_app (SourceApp.ID src) a st | None \<Rightarrow> st)"
  using assms by (simp add: process_app_def split: option.splits)

lemma process_app_panic:
  assumes "checkStrategy w src = Panic"
  shows "process_app w old src st = None"
  using assms by (simp add: process_app_def)

lemma process_app_version_skip:
  assumes "checkStrategy w src = Ok (v, u, s)" "Apps old (SourceApp.ID src) = Some a"
    "Strategy src \<noteq> ''direct_static''" "Version a = v"
  shows "process_app w old src st = Some (put_app (SourceApp.ID src) a st)"
  using assms by (simp add: process_app_def)

lemma process_app_download_error:
  assumes "checkStrategy w src = Ok (v, u, s)" "\<not> version_skip old src v"
    "downloadAndHash w u = Err e"
  shows "process_app w old src st =
           Some (case Apps old (SourceApp.ID src) of
                   Some a \<Rightarrow> put_app (SourceApp.ID src) a (log_fetch u st)
                 | None \<Rightarrow> log_fetch u st)"
  using assms by (auto simp add: process_app_def version_skip_def split: option.splits)

lemma process_app_hash_skip:
  assumes "checkStrategy w src = Ok (v, u, s)" "\<not> version_skip old src v"
    "downloadAndHash w u = Ok (c, n)" "hash_skip old src c" "Apps old (SourceApp.ID src) = Some a"
  shows "process_app w old src st = Some (put_app (SourceApp.ID src) a (log_fetch u st))"
  using assms by (auto simp add: process_app_def version_skip_def hash_skip_def split: option.splits)

lemma process_app_update:
  assumes "checkStrategy w src = Ok (v, u, s)" "\<not> version_skip old src v"
    "downloadAndHash w u = Ok (c, n)" "\<not> hash_skip old src c"
  shows "process_app w old src st =
     Some ((put_app (SourceApp.ID src) (new_entry src v u c (if s = 0 then n else s)) (log_fetch u st))
             \<lparr>changesCount := changesCount st + 1\<rparr>)"
  using assms by (auto simp add: process_app_def version_skip_def hash_skip_def new_entry_def log_fetch_simps Let_def split: option.splits)

lemma downloadAndHash_no_panic: "downloadAndHash w u \<noteq> Panic"
  by (simp add: downloadAndHash_def split: option.splits)

lemma carry_simps:
  "Apps (newCatalog (carry k p st)) = (case p of None \<Rightarrow> Apps (newCatalog st) | Some a \<Rightarrow> (Apps (newCatalog st))(k \<mapsto> a))"
  "LastUpdated (newCatalog (carry k p st)) = LastUpdated (newCatalog st)"
  "changesCount (carry k p st) = changesCount st"
  "fetched (carry k p st) = fetched st"
  by (simp_all add: carry_def put_app_simps split: option.splits)

lemma process_app_keep:
  assumes "\<not> genuine_update w old src" "checkStrategy w src \<noteq> Panic"
  shows "\<exists>us. process_app w old src st =
           Some (carry (SourceApp.ID src) (Apps old (SourceApp.ID src)) (st\<lparr>fetched := fetched st @ us\<rparr>))"
proof (cases "checkStrategy w src")
  case (Err e)
  have "process_app w old src st =
           Some (carry (SourceApp.ID src) (Apps old (SourceApp.ID src)) (st\<lparr>fetched := fetched st @ []\<rparr>))"
    by (simp add: process_app_strategy_error [OF Err] carry_def split: option.splits)
  then show ?thesis by blast
next
  case Panic
  with assms show ?thesis by simp
next
  case (Ok r)
  obtain v u s where r: "r = (v, u, s)" by (cases r)
  note cs = Ok [unfolded r]
  show ?thesis
  proof (cases "version_skip old src v")
    case True
    then obtain a where a: "Apps old (SourceApp.ID src) = Some a"
      "Strategy src \<noteq> ''direct_static''" "Version a = v"
      by (auto simp: version_skip_def split: option.splits)
    have "process_app w old src st =
           Some (carry (SourceApp.ID src) (Apps old (SourceApp.ID src)) (st\<lparr>fetched := fetched st @ []\<rparr>))"
      by (simp add: process_app_version_skip [OF cs a] a(1) carry_def)
    then show ?thesis by blast
  next
    case False
    show ?thesis
    proof (cases "downloadAndHash w u")
      case (Err e)
      have "process_app w old src st =
           Some (carry (SourceApp.ID src) (Apps old (SourceApp.ID src)) (st\<lparr>fetched := fetched st @ [u]\<rparr>))"
        by (simp add: process_app_download_error [OF cs False Err] carry_def log_fetch_def
            split: option.splits)
      then show ?thesis by blast
    next
      case Panic
      then show ?thesis by (simp add: downloadAndHash_no_panic)
    next
      case (Ok q)
      obtain c n where q: "q = (c, n)" by (cases q)
      note dl = Ok [unfolded q]
      from assms(1) cs False dl have hs: "hash_skip old src c"
        by (simp add: genuine_update_def)
      then obtain a where a: "Apps old (SourceApp.ID src) = Some a"
        by (auto simp: hash_skip_def split: option.splits)
      have "process_app w old src st =
           Some (carry (SourceApp.ID src) (Apps old (SourceApp.ID src)) (st\<lparr>fetched := fetched st @ [u]\<rparr>))"
        by (simp add: process_app_hash_skip [OF cs False dl hs a] a carry_def log_fetch_def)
      then show ?thesis by blast
    qed
  qed
qed

lemma process_app_change:
  assumes "genuine_update w old src"
  shows "\<exists>v u s c n. checkStrategy w src = Ok (v, u, s) \<and> downloadAndHash w u = Ok (c, n) \<and>
           \<not> version_skip old src v \<and> \<not> hash_skip old src c \<and>
           process_app w old src st =
             Some ((put_app (SourceApp.ID src) (new_entry src v u c (if s = 0 then n else s))
                     (log_fetch u st))\<lparr>changesCount := changesCount st + 1\<rparr>)"
proof -
  from assms obtain v u s where cs: "checkStrategy w src = Ok (v, u, s)"
    by (auto simp: genuine_update_def split: result.splits)
  from assms cs have vs: "\<not> version_skip old src v"
    by (simp add: genuine_update_def)
  from assms cs obtain c n where dl: "downloadAndHash w u = Ok (c, n)"
    by (auto simp: genuine_update_def split: result.splits)
  from assms cs dl have hs: "\<not> hash_skip old src c"
    by (simp add: genuine_update_def)
  from process_app_update [OF cs vs dl hs] cs dl vs hs show ?thesis by blast
qed

lemma process_app_None:
  "process_app w old src st = None \<longleftrightarrow> checkStrategy w src = Panic"
proof (cases "checkStrategy w src = Panic")
  case True
  then show ?thesis by (simp add: process_app_panic)
next
  case False
  show ?thesis
  proof (cases "genuine_update w old src")
    case True
    from process_app_change [OF True, of st] False show ?thesis by auto
  next
    case g: False
    from process_app_keep [OF g False, of st] False show ?thesis by auto
  qed
qed

lemma process_app_frame:
  assumes "process_app w old src st = Some st'" "k \<noteq> SourceApp.ID src"
  shows "Apps (newCatalog st') k = Apps (newCatalog st) k"
proof -
  from assms(1) have np: "checkStrategy w src \<noteq> Panic"
    using process_app_None [of w old src st] by simp
  show ?thesis
  proof (cases "genuine_update w old src")
    case True
    from process_app_change [OF True, of st] assms show ?thesis
      by (auto simp: put_app_simps log_fetch_simps)
  next
    case False
    from process_app_keep [OF False np, of st] assms show ?thesis
      by (auto simp: carry_simps split: option.splits)
  qed
qed

lemma process_app_changes:
  assumes "process_app w old src st = Some st'"
  shows "changesCount st' = changesCount st + (if genuine_update w old src then 1 else 0)"
proof -
  from assms(1) have np: "checkStrategy w src \<noteq> Panic"
    using process_app_None [of w old src st] by simp
  show ?thesis
  proof (cases "genuine_update w old src")
    case True
    from process_app_change [OF True, of st] assms True show ?thesis
      by auto
  next
    case False
    from process_app_keep [OF False np, of st] assms False show ?thesis
      by (auto simp: carry_simps)
  qed
qed


lemma run_loop_append:
  "run_loop w old (xs @ ys) st =
     (case run_loop w old xs st of None \<Rightarrow> None | Some st' \<Rightarrow> run_loop w old ys st')"
  by (induction xs arbitrary: st) (auto split: option.splits)

lemma run_loop_frame:
  assumes "run_loop w old srcs st = Some st'" "k \<notin> SourceApp.ID ` set srcs"
  shows "Apps (newCatalog st') k = Apps (newCatalog st) k"
  using assms
proof (induction srcs arbitrary: st)
  case Nil
  then show ?case by simp
next
  case (Cons src rest)
  from Cons.prems(1) obtain st1 where s1: "process_app w old src st = Some st1"
    and r: "run_loop w old rest st1 = Some st'"
    by (auto split: option.splits)
  from Cons.prems(2) have "k \<noteq> SourceApp.ID src" "k \<notin> SourceApp.ID ` set rest" by auto
  with Cons.IH [OF r] process_app_frame [OF s1] show ?case by simp
qed


lemma run_loop_changes:
  assumes "run_loop w old srcs st = Some st'"
  shows "changesCount st' = changesCount st + length (filter (genuine_update w old) srcs)"
  using assms
proof (induction srcs arbitrary: st)
  case Nil
  then show ?case by simp
next
  case (Cons src rest)
  from Cons.prems(1) obtain st1 where s1: "process_app w old src st = Some st1"
    and r: "run_loop w old rest st1 = Some st'"
    by (auto split: option.splits)
  with Cons.IH [OF r] process_app_changes [OF s1] show ?case by simp
qed

lemma run_loop_None:
  "run_loop w old srcs st = None \<longleftrightarrow> (\<exists>src \<in> set srcs. checkStrategy w src = Panic)"
proof (induction srcs arbitrary: st)
  case Nil
  then show ?case by simp
next
  case (Cons src rest)
  show ?case
  proof (cases "process_app w old src st")
    case None
    then show ?thesis using process_app_None [of w old src st] by simp
  next
    case (Some st1)
    then have "checkStrategy w src \<noteq> Panic"
      using process_app_None [of w old src st] by simp
    with Some Cons.IH [of st1] show ?thesis by simp
  qed
qed

lemma fails_not_update:
  "resolution_or_download_fails w old src \<Longrightarrow> \<not> genuine_update w old src"
  by (auto simp: resolution_or_download_fails_def genuine_update_def split: result.splits)

lemma fails_not_panic:
  "resolution_or_download_fails w old src \<Longrightarrow> checkStrategy w src \<noteq> Panic"
  by (auto simp: resolution_or_download_fails_def split: result.splits)

lemma run_loop_entry:
  assumes "distinct (map SourceApp.ID srcs)" "src \<in> set srcs"
    "run_loop w old srcs st0 = Some stf"
  shows "\<exists>st st'. process_app w old src st = Some st' \<and>
           Apps (newCatalog st) (SourceApp.ID src) = Apps (newCatalog st0) (SourceApp.ID src) \<and>
           Apps (newCatalog stf) (SourceApp.ID src) = Apps (newCatalog st') (SourceApp.ID src)"
  using assms
proof (induction srcs arbitrary: st0)
  case Nil
  then show ?case by simp
next
  case (Cons x rest)
  from Cons.prems(3) obtain st1 where s1: "process_app w old x st0 = Some st1"
    and r: "run_loop w old rest st1 = Some stf"
    by (auto split: option.splits)
  from Cons.prems(1) have d: "distinct (map SourceApp.ID rest)"
    and nx: "SourceApp.ID x \<notin> SourceApp.ID ` set rest" by auto
  show ?case
  proof (cases "src = x")
    case True
    from run_loop_frame [OF r nx] have "Apps (newCatalog stf) (SourceApp.ID x) = Apps (newCatalog st1) (SourceApp.ID x)" .
    with s1 True show ?thesis by blast
  next
    case False
    with Cons.prems(2) have m: "src \<in> set rest" by simp
    with nx have ne: "SourceApp.ID src \<noteq> SourceApp.ID x" by (metis imageI)
    from Cons.IH [OF d m r] obtain st st' where
      p: "process_app w old src st = Some st'"
      and a: "Apps (newCatalog st) (SourceApp.ID src) = Apps (newCatalog st1) (SourceApp.ID src)"
      and b: "Apps (newCatalog stf) (SourceApp.ID src) = Apps (newCatalog st') (SourceApp.ID src)"
      by blast
    from process_app_frame [OF s1 ne] a
    have "Apps (newCatalog st) (SourceApp.ID src) = Apps (newCatalog st0) (SourceApp.ID src)"
      by simp
    with p b show ?thesis by blast
  qed
qed

lemma process_app_keep_entry:
  assumes "\<not> genuine_update w old src" "process_app w old src st = Some st'"
    "Apps (newCatalog st) (SourceApp.ID src) = None"
  shows "Apps (newCatalog st') (SourceApp.ID src) = Apps old (SourceApp.ID src)"
proof -
  from assms(2) have np: "checkStrategy w src \<noteq> Panic"
    using process_app_None [of w old src st] by simp
  from process_app_keep [OF assms(1) np, of st] assms(2,3) show ?thesis
    by (auto simp: carry_simps split: option.splits)
qed

lemma main_Some:
  assumes "main w sources file = Some r"
  shows "run_loop w (loadCatalog file) sources (initial_state w) = Some (final r) \<and>
         saved r = (0 < changesCount (final r) \<or> dom (Apps (loadCatalog file)) = {}) \<and>
         catalog_json r = (if saved r then Some (newCatalog (final r)) else file)"
  using assms
  by (auto simp: main_def Let_def saveCatalog_def split: option.splits if_splits)

lemma run_loop_dom:
  assumes "run_loop w old srcs (initial_state w) = Some st" "k \<notin> SourceApp.ID ` set srcs"
  shows "Apps (newCatalog st) k = None"
  using run_loop_frame [OF assms] by (simp add: initial_state_def)

lemma main_None:
  "main w sources file = None \<longleftrightarrow> (\<exists>src \<in> set sources. checkStrategy w src = Panic)"
proof -
  have "main w sources file = None \<longleftrightarrow>
          run_loop w (loadCatalog file) sources (initial_state w) = None"
    by (simp add: main_def Let_def split: option.splits)
  then show ?thesis by (simp only: run_loop_None)
qed

lemma find_asset_no_match:
  "(\<forall>a \<in> set assets. \<not> Contains (ToLower (Asset.Name a)) assetFilter) \<Longrightarrow>
     find_asset version assetFilter assets = Err (AssetNotFound assetFilter)"
  by (induction assets) auto

lemma find_asset_first_match:
  "find_asset version assetFilter assets = Ok r \<Longrightarrow>
     \<exists>pre a post. assets = pre @ a # post \<and>
       (\<forall>b \<in> set pre. \<not> Contains (ToLower (Asset.Name b)) assetFilter) \<and>
       Contains (ToLower (Asset.Name a)) assetFilter \<and>
       r = (version, BrowserDownloadURL a, Asset.Size a)"
proof (induction assets)
  case Nil
  then show ?case by simp
next
  case (Cons x rest)
  show ?case
  proof (cases "Contains (ToLower (Asset.Name x)) assetFilter")
    case True
    with Cons.prems have "r = (version, BrowserDownloadURL x, Asset.Size x)" by simp
    with True have "x # rest = [] @ x # rest \<and>
       (\<forall>b \<in> set []. \<not> Contains (ToLower (Asset.Name b)) assetFilter) \<and>
       Contains (ToLower (Asset.Name x)) assetFilter \<and>
       r = (version, BrowserDownloadURL x, Asset.Size x)" by simp
    then show ?thesis by blast
  next
    case False
    with Cons.prems have "find_asset version assetFilter rest = Ok r" by simp
    from Cons.IH [OF this] obtain pre a post where
      "rest = pre @ a # post"
      "\<forall>b \<in> set pre. \<not> Contains (ToLower (Asset.Name b)) assetFilter"
      "Contains (ToLower (Asset.Name a)) assetFilter"
      "r = (version, BrowserDownloadURL a, Asset.Size a)"
      by blast
    with False have "x # rest = (x # pre) @ a # post \<and>
       (\<forall>b \<in> set (x # pre). \<not> Contains (ToLower (Asset.Name b)) assetFilter) \<and>
       Contains (ToLower (Asset.Name a)) assetFilter \<and>
       r = (version, BrowserDownloadURL a, Asset.Size a)" by simp
    then show ?thesis by blast
  qed
qed

lemma checkDirectHead_bad_regex:
  assumes "Compile w versionRegex = None"
  shows "checkDirectHead w startURL versionRegex =
     (if \<not> NewRequestOK w startURL then Panic
      else case Do w (head_request startURL) of
             None \<Rightarrow> Err TransportError
           | Some resp \<Rightarrow>
               if StatusCode resp \<noteq> 200 then Err (StatusInvalid (StatusCode resp)) else Panic)"
  using assms by (simp add: checkDirectHead_def head_request_def Let_def split: option.splits)

lemma checkGithub_clock:
  "checkGithub (w\<lparr>Today := d, Now := t\<rparr>) repo assetFilter = checkGithub w repo assetFilter"
  by (simp add: checkGithub_def Let_def split: option.splits)

lemma checkDirectHead_clock:
  "checkDirectHead (w\<lparr>Today := d, Now := t\<rparr>) startURL versionRegex =
     checkDirectHead w startURL versionRegex"
  by (simp add: checkDirectHead_def Let_def split: option.splits)

lemma checkStrategy_clock:
  "checkStrategy (w\<lparr>Today := d, Now := t\<rparr>) src =
     (if Strategy src = ''direct_static'' then Ok (d, cfg (Config src) ''url'', 0)
      else checkStrategy w src)"
  by (simp add: checkStrategy_def checkGithub_clock checkDirectHead_clock)

lemma checkStrategy_static:
  "Strategy src = ''direct_static'' \<Longrightarrow>
     checkStrategy w src = Ok (Today w, cfg (Config src) ''url'', 0)"
  by (simp add: checkStrategy_def)

lemma downloadAndHash_clock:
  "downloadAndHash (w\<lparr>Today := d, Now := t\<rparr>) u = downloadAndHash w u"
  by (simp add: downloadAndHash_def split: option.splits)

lemma version_skip_static:
  "Strategy src = ''direct_static'' \<Longrightarrow> \<not> version_skip old src v"
  by (simp add: version_skip_def split: option.splits)

lemma genuine_update_clock:
  "genuine_update (w\<lparr>Today := d, Now := t\<rparr>) old src = genuine_update w old src"
proof (cases "Strategy src = ''direct_static''")
  case True
  then show ?thesis
    by (simp add: genuine_update_def checkStrategy_clock checkStrategy_static
        downloadAndHash_clock version_skip_static)
next
  case False
  then show ?thesis
    by (simp add: genuine_update_def checkStrategy_clock downloadAndHash_clock
        cong: result.case_cong)
qed

lemma genuine_update_cong:
  assumes "Apps old1 (SourceApp.ID src) = Apps old2 (SourceApp.ID src)"
  shows "genuine_update w old1 src = genuine_update w old2 src"
  using assms
  by (simp add: genuine_update_def version_skip_def hash_skip_def
      split: result.splits prod.splits)

lemma panic_clock:
  "checkStrategy (w\<lparr>Today := d, Now := t\<rparr>) src = Panic \<longleftrightarrow> checkStrategy w src = Panic"
  by (simp add: checkStrategy_clock checkStrategy_static)

lemma updated_entry_is_stable:
  assumes "genuine_update w old src" "process_app w old src st = Some st'"
    "Apps old2 (SourceApp.ID src) = Apps (newCatalog st') (SourceApp.ID src)"
  shows "\<not> genuine_update w old2 src"
proof -
  from process_app_change [OF assms(1), of st] assms(2) obtain v u s c n where
    cs: "checkStrategy w src = Ok (v, u, s)" and dl: "downloadAndHash w u = Ok (c, n)"
    and st': "st' = (put_app (SourceApp.ID src) (new_entry src v u c (if s = 0 then n else s))
                     (log_fetch u st))\<lparr>changesCount := changesCount st + 1\<rparr>"
    by auto
  from st' assms(3) have o: "Apps old2 (SourceApp.ID src) =
      Some (new_entry src v u c (if s = 0 then n else s))"
    by (simp add: put_app_simps)
  show ?thesis
  proof (cases "Strategy src = ''direct_static''")
    case True
    with o have "hash_skip old2 src c"
      by (simp add: hash_skip_def new_entry_def)
    with cs dl show ?thesis by (simp add: genuine_update_def)
  next
    case False
    with o have "version_skip old2 src v"
      by (simp add: version_skip_def new_entry_def)
    with cs show ?thesis by (simp add: genuine_update_def)
  qed
qed

lemma second_run_step:
  assumes p: "process_app w old src st = Some st'"
    and fresh: "Apps (newCatalog st) (SourceApp.ID src) = None"
    and F: "Apps old2 (SourceApp.ID src) = Apps (newCatalog st') (SourceApp.ID src)"
  shows "\<not> genuine_update (w\<lparr>Today := d, Now := t\<rparr>) old2 src \<and>
         checkStrategy (w\<lparr>Today := d, Now := t\<rparr>) src \<noteq> Panic"
proof -
  from p have np: "checkStrategy w src \<noteq> Panic"
    using process_app_None [of w old src st] by simp
  have "\<not> genuine_update w old2 src"
  proof (cases "genuine_update w old src")
    case True
    from updated_entry_is_stable [OF True p F] show ?thesis .
  next
    case False
    from process_app_keep_entry [OF False p fresh] F
    have "Apps old2 (SourceApp.ID src) = Apps old (SourceApp.ID src)" by simp
    from genuine_update_cong [OF this, of w] False show ?thesis by simp
  qed
  with np show ?thesis by (simp add: genuine_update_clock panic_clock)
qed

lemma keep_loop:
  assumes "\<forall>src \<in> set srcs. \<not> genuine_update w old src \<and> checkStrategy w src \<noteq> Panic"
  shows "\<exists>st'. run_loop w old srcs st = Some st' \<and>
           changesCount st' = changesCount st \<and>
           (\<forall>k. Apps (newCatalog st') k =
                  (if k \<in> SourceApp.ID ` set srcs \<and> Apps old k \<noteq> None then Apps old k
                   else Apps (newCatalog st) k))"
  using assms
proof (induction srcs arbitrary: st)
  case Nil
  then show ?case by simp
next
  case (Cons x rest)
  from Cons.prems have nx: "\<not> genuine_update w old x" "checkStrategy w x \<noteq> Panic"
    and nr: "\<forall>src \<in> set rest. \<not> genuine_update w old src \<and> checkStrategy w src \<noteq> Panic"
    by simp_all
  from process_app_keep [OF nx, of st] obtain us where
    p: "process_app w old x st =
          Some (carry (SourceApp.ID x) (Apps old (SourceApp.ID x)) (st\<lparr>fetched := fetched st @ us\<rparr>))"
    by blast
  define st1 where "st1 = carry (SourceApp.ID x) (Apps old (SourceApp.ID x)) (st\<lparr>fetched := fetched st @ us\<rparr>)"
  have c1: "changesCount st1 = changesCount st"
    by (simp add: st1_def carry_simps)
  have a1: "Apps (newCatalog st1) k =
              (if k = SourceApp.ID x \<and> Apps old k \<noteq> None then Apps old k
               else Apps (newCatalog st) k)" for k
    by (auto simp: st1_def carry_simps split: option.splits)
  from Cons.IH [OF nr, of st1] obtain st' where
    r: "run_loop w old rest st1 = Some st'"
    and c: "changesCount st' = changesCount st1"
    and a: "\<forall>k. Apps (newCatalog st') k =
                  (if k \<in> SourceApp.ID ` set rest \<and> Apps old k \<noteq> None then Apps old k
                   else Apps (newCatalog st1) k)"
    by blast
  have "run_loop w old (x # rest) st = Some st'"
    using p r by (simp add: st1_def)
  moreover have "changesCount st' = changesCount st"
    using c c1 by simp
  moreover have "\<forall>k. Apps (newCatalog st') k =
                  (if k \<in> SourceApp.ID ` set (x # rest) \<and> Apps old k \<noteq> None then Apps old k
                   else Apps (newCatalog st) k)"
    using a a1 by auto
  ultimately show ?case by blast
qed

lemma no_update_keeps_prior:
  assumes "distinct (map SourceApp.ID srcs)"
    and "run_loop w old srcs (initial_state w) = Some stf"
    and "changesCount stf = 0"
    and "src \<in> set srcs"
  shows "Apps (newCatalog stf) (SourceApp.ID src) = Apps old (SourceApp.ID src)"
proof -
  from run_loop_changes [OF assms(2)] assms(3)
  have "filter (genuine_update w old) srcs = []" by simp
  with assms(4) have nu: "\<not> genuine_update w old src"
    by (simp add: filter_empty_conv)
  from run_loop_entry [OF assms(1) assms(4) assms(2)] obtain s s' where
    p: "process_app w old src s = Some s'"
    and e: "Apps (newCatalog s) (SourceApp.ID src) =
              Apps (newCatalog (initial_state w)) (SourceApp.ID src)"
    and f: "Apps (newCatalog stf) (SourceApp.ID src) = Apps (newCatalog s') (SourceApp.ID src)"
    by blast
  from e have "Apps (newCatalog s) (SourceApp.ID src) = None"
    by (simp add: initial_state_def)
  from process_app_keep_entry [OF nu p this] f show ?thesis by simp
qed

lemma second_run_loop:
  assumes d: "distinct (map SourceApp.ID srcs)"
    and r1: "run_loop w old srcs (initial_state w) = Some st1"
    and F: "\<forall>src \<in> set srcs. Apps old2 (SourceApp.ID src) = Apps (newCatalog st1) (SourceApp.ID src)"
  shows "\<exists>st2. run_loop (w\<lparr>Today := d', Now := t\<rparr>) old2 srcs
                 (initial_state (w\<lparr>Today := d', Now := t\<rparr>)) = Some st2 \<and>
           changesCount st2 = 0 \<and>
           Apps (newCatalog st2) = Apps (newCatalog st1)"
proof -
  let ?w2 = "w\<lparr>Today := d', Now := t\<rparr>"
  have stable: "\<forall>src \<in> set srcs. \<not> genuine_update ?w2 old2 src \<and> checkStrategy ?w2 src \<noteq> Panic"
  proof
    fix src assume m: "src \<in> set srcs"
    from run_loop_entry [OF d m r1] obtain s s' where
      p: "process_app w old src s = Some s'"
      and e: "Apps (newCatalog s) (SourceApp.ID src) =
                Apps (newCatalog (initial_state w)) (SourceApp.ID src)"
      and f: "Apps (newCatalog st1) (SourceApp.ID src) = Apps (newCatalog s') (SourceApp.ID src)"
      by blast
    from e have fresh: "Apps (newCatalog s) (SourceApp.ID src) = None"
      by (simp add: initial_state_def)
    from F m f have "Apps old2 (SourceApp.ID src) = Apps (newCatalog s') (SourceApp.ID src)"
      by simp
    from second_run_step [OF p fresh this]
    show "\<not> genuine_update ?w2 old2 src \<and> checkStrategy ?w2 src \<noteq> Panic" .
  qed
  from keep_loop [OF stable, of "initial_state ?w2"] obtain st2 where
    r2: "run_loop ?w2 old2 srcs (initial_state ?w2) = Some st2"
    and c: "changesCount st2 = changesCount (initial_state ?w2)"
    and a: "\<forall>k. Apps (newCatalog st2) k =
                  (if k \<in> SourceApp.ID ` set srcs \<and> Apps old2 k \<noteq> None then Apps old2 k
                   else Apps (newCatalog (initial_state ?w2)) k)"
    by blast
  have "Apps (newCatalog st2) k = Apps (newCatalog st1) k" for k
  proof (cases "k \<in> SourceApp.ID ` set srcs")
    case True
    then obtain src where m: "src \<in> set srcs" and k: "k = SourceApp.ID src" by blast
    from F m k have "Apps old2 k = Apps (newCatalog st1) k" by simp
    with a True show ?thesis by (simp add: initial_state_def)
  next
    case False
    from run_loop_dom [OF r1 False] a False show ?thesis by (simp add: initial_state_def)
  qed
  then have "Apps (newCatalog st2) = Apps (newCatalog st1)" by (rule ext)
  with r2 c show ?thesis by (simp add: initial_state_def)
qed

lemma ToLowerChar_not_upper:
  "\<not> (65 \<le> (of_char (ToLowerChar c) :: nat) \<and> (of_char (ToLowerChar c) :: nat) \<le> 90)"
  by (simp add: ToLowerChar_def Let_def)

lemma Contains_subset:
  "Contains s substr \<Longrightarrow> set substr \<subseteq> set s"
proof (induction s)
  case Nil
  then show ?case by simp
next
  case (Cons c s)
  show ?case
  proof (cases "HasPrefix (c # s) substr")
    case True
    then have "take (length substr) (c # s) = substr" by (simp add: HasPrefix_def)
    then have "set substr = set (take (length substr) (c # s))" by simp
    also have "\<dots> \<subseteq> set (c # s)" by (rule set_take_subset)
    finally show ?thesis .
  next
    case False
    with Cons.prems have "Contains s substr" by simp
    from Cons.IH [OF this] show ?thesis by auto
  qed
qed

lemma uppercase_filter_matches_nothing:
  assumes "c \<in> set assetFilter" "65 \<le> (of_char c :: nat)" "(of_char c :: nat) \<le> 90"
  shows "find_asset version assetFilter assets = Err (AssetNotFound assetFilter)"
proof (rule find_asset_no_match, rule ballI)
  fix a
  show "\<not> Contains (ToLower (Asset.Name a)) assetFilter"
  proof
    assume "Contains (ToLower (Asset.Name a)) assetFilter"
    from Contains_subset [OF this] assms(1) have "c \<in> set (ToLower (Asset.Name a))" by auto
    then obtain x where "c = ToLowerChar x" by (auto simp: ToLower_def)
    with ToLowerChar_not_upper [of x] assms(2,3) show False by simp
  qed
qed

section \<open>The claims\<close>

text \<open>
  Claim C1. For an application whose strategy is not \<open>direct_static\<close>, with a prior
  entry whose version equals the version the strategy resolves, the iteration
  calls \<^verbatim>\<open>downloadAndHash\<close> for nothing (the log of fetched URLs is unchanged),
  counts no change, and stores the prior entry itself, every field included, under
  the application's ID.
\<close>

theorem C1_version_unchanged_skips:
  assumes "Strategy src \<noteq> ''direct_static''"
    and "Apps oldCatalog (SourceApp.ID src) = Some oldApp"
    and "checkStrategy w src = Ok (onlineVer, onlineURL, onlineSize)"
    and "Version oldApp = onlineVer"
  shows "\<exists>st'. process_app w oldCatalog src st = Some st' \<and>
           fetched st' = fetched st \<and>
           changesCount st' = changesCount st \<and>
           Apps (newCatalog st') = (Apps (newCatalog st))(SourceApp.ID src \<mapsto> oldApp)"
  using process_app_version_skip [OF assms(3) assms(2) assms(1) assms(4), of st]
  by (simp add: put_app_simps)

theorem C1_witness:
  "Strategy sample_github \<noteq> ''direct_static'' \<and>
   checkStrategy sample_world sample_github =
     Ok (''1.2.0'', ''https://dl.example.org/tool-linux.deb'', 1000) \<and>
   (\<exists>st'. process_app sample_world
            \<lparr>LastUpdated = 0, Apps = [''tool'' \<mapsto> sample_entry ''tool'' ''1.2.0'' ''aa11'']\<rparr>
            sample_github sample_state = Some st' \<and>
          fetched st' = [] \<and> changesCount st' = 0 \<and>
          Apps (newCatalog st') = [''tool'' \<mapsto> sample_entry ''tool'' ''1.2.0'' ''aa11''])"
proof -
  have h1: "Strategy sample_github \<noteq> ''direct_static''"
    by (simp add: sample_github_def)
  have h2: "Apps \<lparr>LastUpdated = 0, Apps = [''tool'' \<mapsto> sample_entry ''tool'' ''1.2.0'' ''aa11'']\<rparr>
              (SourceApp.ID sample_github) = Some (sample_entry ''tool'' ''1.2.0'' ''aa11'')"
    by (simp add: sample_github_def)
  have h3: "checkStrategy sample_world sample_github =
              Ok (''1.2.0'', ''https://dl.example.org/tool-linux.deb'', 1000)"
    by code_simp
  have h4: "Version (sample_entry ''tool'' ''1.2.0'' ''aa11'') = ''1.2.0''"
    by (simp add: sample_entry_def)
  from C1_version_unchanged_skips [OF h1 h2 h3 h4, of sample_state] h1 h3 show ?thesis
    by (simp add: sample_state_def sample_github_def)
qed

text \<open>
  Claim C2. When version resolution returns an error, or the download that
  follows it does, the iteration returns (the loop goes on with the next
  application), counts no change, and writes the prior entry under the
  application's ID if there is one and nothing otherwise. In a run over a source
  list with distinct IDs, the new catalog then holds for that ID exactly what the
  prior catalog held: the prior entry, or no entry. No entry other than a prior
  one is stored on these paths.
\<close>

theorem C2_failure_carries_forward:
  assumes "resolution_or_download_fails w oldCatalog src"
  shows "(\<exists>st'. process_app w oldCatalog src st = Some st' \<and>
            run_loop w oldCatalog (src # rest) st = run_loop w oldCatalog rest st' \<and>
            changesCount st' = changesCount st \<and>
            Apps (newCatalog st') =
              (case Apps oldCatalog (SourceApp.ID src) of
                 None \<Rightarrow> Apps (newCatalog st)
               | Some oldApp \<Rightarrow> (Apps (newCatalog st))(SourceApp.ID src \<mapsto> oldApp))) \<and>
         (distinct (map SourceApp.ID sources) \<and> src \<in> set sources \<and>
          run_loop w oldCatalog sources (initial_state w) = Some stf \<longrightarrow>
            Apps (newCatalog stf) (SourceApp.ID src) = Apps oldCatalog (SourceApp.ID src))"
proof (intro conjI impI)
  note nu = fails_not_update [OF assms]
  note np = fails_not_panic [OF assms]
  from process_app_keep [OF nu np, of st] obtain us where
    p: "process_app w oldCatalog src st =
          Some (carry (SourceApp.ID src) (Apps oldCatalog (SourceApp.ID src))
                  (st\<lparr>fetched := fetched st @ us\<rparr>))"
    by blast
  show "\<exists>st'. process_app w oldCatalog src st = Some st' \<and>
            run_loop w oldCatalog (src # rest) st = run_loop w oldCatalog rest st' \<and>
            changesCount st' = changesCount st \<and>
            Apps (newCatalog st') =
              (case Apps oldCatalog (SourceApp.ID src) of
                 None \<Rightarrow> Apps (newCatalog st)
               | Some oldApp \<Rightarrow> (Apps (newCatalog st))(SourceApp.ID src \<mapsto> oldApp))"
    by (simp add: p carry_simps split: option.splits)
next
  assume a: "distinct (map SourceApp.ID sources) \<and> src \<in> set sources \<and>
          run_loop w oldCatalog sources (initial_state w) = Some stf"
  note nu = fails_not_update [OF assms]
  from a run_loop_entry [of sources src w oldCatalog "initial_state w" stf]
  obtain s s' where p: "process_app w oldCatalog src s = Some s'"
    and e: "Apps (newCatalog s) (SourceApp.ID src) = Apps (newCatalog (initial_state w)) (SourceApp.ID src)"
    and f: "Apps (newCatalog stf) (SourceApp.ID src) = Apps (newCatalog s') (SourceApp.ID src)"
    by blast
  from e have "Apps (newCatalog s) (SourceApp.ID src) = None"
    by (simp add: initial_state_def)
  from process_app_keep_entry [OF nu p this] f
  show "Apps (newCatalog stf) (SourceApp.ID src) = Apps oldCatalog (SourceApp.ID src)"
    by simp
qed

theorem C2_witness:
  "resolution_or_download_fails offline_world sample_old sample_github \<and>
   (\<exists>st'. process_app offline_world sample_old sample_github sample_state = Some st' \<and>
      run_loop offline_world sample_old [sample_github, sample_static] sample_state =
        run_loop offline_world sample_old [sample_static] st' \<and>
      changesCount st' = 0 \<and>
      Apps (newCatalog st') = [''tool'' \<mapsto> sample_entry ''tool'' ''1.2.0'' ''aa11'']) \<and>
   (\<exists>stf. run_loop offline_world sample_old [sample_github, sample_static]
            (initial_state offline_world) = Some stf \<and>
          Apps (newCatalog stf) ''tool'' = Some (sample_entry ''tool'' ''1.2.0'' ''aa11''))"
proof -
  have h: "resolution_or_download_fails offline_world sample_old sample_github"
    by code_simp
  have np: "\<forall>src \<in> set [sample_github, sample_static]. checkStrategy offline_world src \<noteq> Panic"
    by code_simp
  then obtain stf where r: "run_loop offline_world sample_old [sample_github, sample_static]
            (initial_state offline_world) = Some stf"
    using run_loop_None [of offline_world sample_old "[sample_github, sample_static]"
        "initial_state offline_world"] by fastforce
  have d: "distinct (map SourceApp.ID [sample_github, sample_static])"
    by (simp add: sample_github_def sample_static_def)
  from C2_failure_carries_forward [OF h, of sample_state "[sample_static]"
      "[sample_github, sample_static]" stf] h r d
  show ?thesis
    by (simp add: sample_state_def sample_github_def sample_old_def)
qed

text \<open>
  Claim C3. For a \<open>direct_static\<close> application with a prior entry, when the
  checksum of the downloaded artifact equals the prior entry's checksum, the
  iteration stores the prior entry unchanged and counts no change; the stored
  version is the prior entry's version, whatever today's date is.
\<close>

theorem C3_static_hash_unchanged_keeps_prior:
  assumes "Strategy src = ''direct_static''"
    and "Apps oldCatalog (SourceApp.ID src) = Some oldApp"
    and "downloadAndHash w (cfg (Config src) ''url'') = Ok (checksum, downloadedSize)"
    and "Checksum oldApp = checksum"
  shows "\<exists>st'. process_app w oldCatalog src st = Some st' \<and>
           changesCount st' = changesCount st \<and>
           Apps (newCatalog st') = (Apps (newCatalog st))(SourceApp.ID src \<mapsto> oldApp) \<and>
           map_option Version (Apps (newCatalog st') (SourceApp.ID src)) = Some (Version oldApp)"
proof -
  have cs: "checkStrategy w src = Ok (Today w, cfg (Config src) ''url'', 0)"
    using assms(1) by (simp add: checkStrategy_def)
  have vs: "\<not> version_skip oldCatalog src (Today w)"
    using assms(1) by (simp add: version_skip_def split: option.splits)
  have hs: "hash_skip oldCatalog src checksum"
    using assms(1,2,4) by (simp add: hash_skip_def)
  from process_app_hash_skip [OF cs vs assms(3) hs assms(2), of st] show ?thesis
    by (simp add: put_app_simps log_fetch_simps)
qed

theorem C3_witness:
  "Strategy sample_static = ''direct_static'' \<and>
   downloadAndHash sample_world (cfg (Config sample_static) ''url'') = Ok (''bb22'', 2) \<and>
   Today sample_world = ''2024.05.06'' \<and>
   (\<exists>st'. process_app sample_world sample_old sample_static sample_state = Some st' \<and>
      changesCount st' = 0 \<and>
      Apps (newCatalog st') = [''chrome'' \<mapsto> sample_entry ''chrome'' ''2024.01.01'' ''bb22''] \<and>
      map_option Version (Apps (newCatalog st') ''chrome'') = Some ''2024.01.01'')"
proof -
  have h1: "Strategy sample_static = ''direct_static''"
    by (simp add: sample_static_def)
  have h2: "Apps sample_old (SourceApp.ID sample_static) =
              Some (sample_entry ''chrome'' ''2024.01.01'' ''bb22'')"
    by (simp add: sample_old_def sample_static_def)
  have h3: "downloadAndHash sample_world (cfg (Config sample_static) ''url'') = Ok (''bb22'', 2)"
    by code_simp
  have h4: "Checksum (sample_entry ''chrome'' ''2024.01.01'' ''bb22'') = ''bb22''"
    by (simp add: sample_entry_def)
  have h5: "Today sample_world = ''2024.05.06''"
    by (simp add: sample_world_def)
  from C3_static_hash_unchanged_keeps_prior [OF h1 h2 h3 h4, of sample_state] h1 h3 h5
  show ?thesis
    by (simp add: sample_state_def sample_static_def sample_entry_def)
qed

text \<open>
  Claim C4, as the code has it. Only the update path takes the metadata from the
  current source descriptor: an iteration that counts a change stores an entry
  whose ID, name, description, icon reference, package name and install type
  are the descriptor's. An iteration that counts no change (a skip or a
  carry-forward) stores the prior entry as it is, with the prior metadata, or
  stores nothing.
\<close>

theorem C4_metadata_current_on_update_only:
  assumes "process_app w oldCatalog src st = Some st'"
  shows "if genuine_update w oldCatalog src
         then changesCount st' = changesCount st + 1 \<and>
              (\<exists>newApp. Apps (newCatalog st') = (Apps (newCatalog st))(SourceApp.ID src \<mapsto> newApp) \<and>
                 CatalogApp.ID newApp = SourceApp.ID src \<and>
                 CatalogApp.Name newApp = SourceApp.Name src \<and>
                 CatalogApp.Description newApp = SourceApp.Description src \<and>
                 CatalogApp.IconURL newApp = SourceApp.IconURL src \<and>
                 CatalogApp.PackageName newApp = SourceApp.PackageName src \<and>
                 CatalogApp.InstallType newApp = SourceApp.InstallType src)
         else changesCount st' = changesCount st \<and>
              Apps (newCatalog st') =
                (case Apps oldCatalog (SourceApp.ID src) of
                   None \<Rightarrow> Apps (newCatalog st)
                 | Some oldApp \<Rightarrow> (Apps (newCatalog st))(SourceApp.ID src \<mapsto> oldApp))"
proof (cases "genuine_update w oldCatalog src")
  case True
  from process_app_change [OF True, of st] assms True show ?thesis
    by (auto simp: put_app_simps log_fetch_simps new_entry_def)
next
  case False
  from assms have np: "checkStrategy w src \<noteq> Panic"
    using process_app_None [of w oldCatalog src st] by simp
  from process_app_keep [OF False np, of st] assms False show ?thesis
    by (auto simp: carry_simps split: option.splits)
qed

theorem C4_witness:
  "genuine_update sample_world \<lparr>LastUpdated = 0, Apps = Map.empty\<rparr> sample_github \<and>
   (\<exists>st'. process_app sample_world \<lparr>LastUpdated = 0, Apps = Map.empty\<rparr> sample_github
             sample_state = Some st' \<and>
      changesCount st' = 1 \<and>
      (\<exists>newApp. Apps (newCatalog st') = [''tool'' \<mapsto> newApp] \<and>
         CatalogApp.ID newApp = ''tool'' \<and>
         CatalogApp.Name newApp = ''Tool'' \<and>
         CatalogApp.Description newApp = ''A tool'' \<and>
         CatalogApp.IconURL newApp = ''https://example.org/tool.png'' \<and>
         CatalogApp.PackageName newApp = ''tool'' \<and>
         CatalogApp.InstallType newApp = ''deb''))"
proof -
  have g: "genuine_update sample_world \<lparr>LastUpdated = 0, Apps = Map.empty\<rparr> sample_github"
    by code_simp
  then obtain st' where p: "process_app sample_world \<lparr>LastUpdated = 0, Apps = Map.empty\<rparr>
      sample_github sample_state = Some st'"
    using process_app_change [of sample_world _ sample_github sample_state] by blast
  from C4_metadata_current_on_update_only [OF p] g p show ?thesis
    by (simp add: sample_state_def sample_github_def)
qed

theorem C4_counterexample:
  "process_app sample_world sample_old sample_github sample_state =
     Some (put_app ''tool'' (sample_entry ''tool'' ''1.2.0'' ''aa11'') sample_state) \<and>
   Apps (newCatalog (put_app ''tool'' (sample_entry ''tool'' ''1.2.0'' ''aa11'') sample_state))
     (SourceApp.ID sample_github) = Some (sample_entry ''tool'' ''1.2.0'' ''aa11'') \<and>
   CatalogApp.Name (sample_entry ''tool'' ''1.2.0'' ''aa11'') = ''Old name'' \<and>
   SourceApp.Name sample_github = ''Tool''"
proof -
  have cs: "checkStrategy sample_world sample_github =
              Ok (''1.2.0'', ''https://dl.example.org/tool-linux.deb'', 1000)"
    by code_simp
  have o: "Apps sample_old (SourceApp.ID sample_github) =
             Some (sample_entry ''tool'' ''1.2.0'' ''aa11'')"
    by (simp add: sample_old_def sample_github_def)
  have s: "Strategy sample_github \<noteq> ''direct_static''"
    by (simp add: sample_github_def)
  have v: "Version (sample_entry ''tool'' ''1.2.0'' ''aa11'') = ''1.2.0''"
    by (simp add: sample_entry_def)
  from process_app_version_skip [OF cs o s v, of sample_state] show ?thesis
    by (simp add: put_app_simps sample_github_def sample_entry_def)
qed

text \<open>
  Claim C5, as the code has it. The new catalog is built from an empty mapping
  and receives entries only under the IDs of the current source list. For an
  ID that is absent from the source list, the new catalog has no entry, so a run
  that writes removes that ID's entry from the catalog file; the entry stays
  only when the run does not write, because then the file is not touched.
\<close>

theorem C5_absent_ids_dropped_on_write:
  assumes "k \<notin> SourceApp.ID ` set sources"
    and "main w sources file = Some r"
  shows "Apps (newCatalog (final r)) k = None \<and>
         persisted_entry k r = (if saved r then None else Apps (loadCatalog file) k)"
proof -
  note m = main_Some [OF assms(2)]
  from m have r: "run_loop w (loadCatalog file) sources (initial_state w) = Some (final r)"
    by simp
  from run_loop_dom [OF r assms(1)] have n: "Apps (newCatalog (final r)) k = None" .
  from m have c: "catalog_json r = (if saved r then Some (newCatalog (final r)) else file)"
    by simp
  show ?thesis
    using n c by (simp add: persisted_entry_def loadCatalog_def)
qed

theorem C5_counterexample:
  "''gone'' \<notin> SourceApp.ID ` set [sample_static] \<and>
   Apps (loadCatalog (Some removed_catalog)) ''gone'' = Some (sample_entry ''gone'' ''1.0'' ''dd44'') \<and>
   map_option saved (main sample_world [sample_static] (Some removed_catalog)) = Some True \<and>
   map_option (persisted_entry ''gone'') (main sample_world [sample_static] (Some removed_catalog))
     = Some None"
proof -
  have np: "\<forall>src \<in> set [sample_static]. checkStrategy sample_world src \<noteq> Panic"
    by code_simp
  have g: "genuine_update sample_world (loadCatalog (Some removed_catalog)) sample_static"
    by code_simp
  have k: "''gone'' \<notin> SourceApp.ID ` set [sample_static]"
    by (simp add: sample_static_def)
  from np obtain st where r: "run_loop sample_world (loadCatalog (Some removed_catalog))
      [sample_static] (initial_state sample_world) = Some st"
    using run_loop_None [of sample_world "loadCatalog (Some removed_catalog)" "[sample_static]"
        "initial_state sample_world"] by fastforce
  from run_loop_changes [OF r] g have c: "changesCount st = 1"
    by (simp add: initial_state_def)
  from run_loop_dom [OF r k] have n: "Apps (newCatalog st) ''gone'' = None" .
  have m: "main sample_world [sample_static] (Some removed_catalog) =
             Some \<lparr>catalog_json = Some (newCatalog st), saved = True, final = st\<rparr>"
    using r c by (simp add: main_def saveCatalog_def)
  have a: "Apps (loadCatalog (Some removed_catalog)) ''gone'' =
             Some (sample_entry ''gone'' ''1.0'' ''dd44'')"
    by (simp add: loadCatalog_def removed_catalog_def)
  have b: "map_option saved (main sample_world [sample_static] (Some removed_catalog)) = Some True"
    by (simp only: m) simp
  have d: "map_option (persisted_entry ''gone'')
             (main sample_world [sample_static] (Some removed_catalog)) = Some None"
    using n by (simp only: m) (simp add: persisted_entry_def loadCatalog_def)
  from k a b d show ?thesis by blast
qed

theorem C5_witness:
  "''gone'' \<notin> SourceApp.ID ` set [sample_static] \<and>
   (\<exists>r. main sample_world [sample_static] (Some removed_catalog) = Some r \<and> saved r \<and>
      Apps (newCatalog (final r)) ''gone'' = None \<and> persisted_entry ''gone'' r = None)"
proof -
  have np: "\<forall>src \<in> set [sample_static]. checkStrategy sample_world src \<noteq> Panic"
    by code_simp
  have g: "genuine_update sample_world (loadCatalog (Some removed_catalog)) sample_static"
    by code_simp
  have k: "''gone'' \<notin> SourceApp.ID ` set [sample_static]"
    by (simp add: sample_static_def)
  from np obtain st where r: "run_loop sample_world (loadCatalog (Some removed_catalog))
      [sample_static] (initial_state sample_world) = Some st"
    using run_loop_None [of sample_world "loadCatalog (Some removed_catalog)" "[sample_static]"
        "initial_state sample_world"] by fastforce
  from run_loop_changes [OF r] g have c: "changesCount st = 1"
    by (simp add: initial_state_def)
  have m: "main sample_world [sample_static] (Some removed_catalog) =
             Some \<lparr>catalog_json = Some (newCatalog st), saved = True, final = st\<rparr>"
    using r c by (simp add: main_def saveCatalog_def)
  from C5_absent_ids_dropped_on_write [OF k m] k m show ?thesis
    by simp
qed



text \<open>
  Claim C7 at the input where the code departs from it: the release has the
  asset \<open>Tool-Linux.deb\<close> and the configured filter is \<open>Linux\<close>. The asset name
  contains the filter, letter for letter, yet resolution fails: only the asset
  name is lower-cased, so a filter with an upper-case letter matches no asset.
\<close>

theorem C7_filter_case_matters:
  "cfg (Config uppercase_filter_app) ''asset_filter'' = ''Linux'' \<and>
   DecodeRelease sample_world
     \<lparr>StatusCode = 200,
      RequestURL = ''https://api.github.com/repos/acme/tool/releases/latest'',
      ContentLength = - 1, Body = [], BodyReadError = False\<rparr> =
     Some \<lparr>TagName = ''v1.2.0'',
           Assets = [\<lparr>Name = ''Tool-Windows.exe'',
                      BrowserDownloadURL = ''https://dl.example.org/tool-windows.exe'',
                      Size = 2000\<rparr>,
                     \<lparr>Name = ''Tool-Linux.deb'',
                      BrowserDownloadURL = ''https://dl.example.org/tool-linux.deb'',
                      Size = 1000\<rparr>]\<rparr> \<and>
   Contains ''Tool-Linux.deb'' ''Linux'' \<and>
   checkStrategy sample_world uppercase_filter_app = Err (AssetNotFound ''Linux'') \<and>
   checkStrategy sample_world sample_github =
     Ok (''1.2.0'', ''https://dl.example.org/tool-linux.deb'', 1000)"
  by code_simp

text \<open>
  Claim C8 at the input where the code departs from it: a \<open>direct_url_head\<close>
  application whose metadata response carries no length, which \<^verbatim>\<open>net/http\<close>
  reports as \<open>ContentLength = -1\<close>. The download streams five bytes, and the entry
  is stored with size \<open>-1\<close>: the fallback to the measured size tests for \<open>0\<close> only.
\<close>

theorem C8_unknown_length_not_backfilled:
  "checkStrategy sample_world sample_head =
     Ok (''3.1'', ''https://example.org/files/editor-3.1.tar.gz'', - 1) \<and>
   downloadAndHash sample_world ''https://example.org/files/editor-3.1.tar.gz'' =
     Ok (''cc33'', 5) \<and>
   process_app sample_world \<lparr>LastUpdated = 0, Apps = Map.empty\<rparr> sample_head sample_state =
     Some \<lparr>newCatalog =
             \<lparr>LastUpdated = 100,
              Apps = [''editor'' \<mapsto>
                new_entry sample_head ''3.1'' ''https://example.org/files/editor-3.1.tar.gz''
                  ''cc33'' (- 1)]\<rparr>,
           changesCount = 1,
           fetched = [''https://example.org/files/editor-3.1.tar.gz'']\<rparr> \<and>
   sint (CatalogApp.Size
          (new_entry sample_head ''3.1'' ''https://example.org/files/editor-3.1.tar.gz''
             ''cc33'' (- 1))) = - 1"
proof -
  have cs: "checkStrategy sample_world sample_head =
     Ok (''3.1'', ''https://example.org/files/editor-3.1.tar.gz'', - 1)"
    by code_simp
  have dl: "downloadAndHash sample_world ''https://example.org/files/editor-3.1.tar.gz'' =
     Ok (''cc33'', 5)"
    by code_simp
  have vs: "\<not> version_skip \<lparr>LastUpdated = 0, Apps = Map.empty\<rparr> sample_head ''3.1''"
    by (simp add: version_skip_def)
  have hs: "\<not> hash_skip \<lparr>LastUpdated = 0, Apps = Map.empty\<rparr> sample_head ''cc33''"
    by (simp add: hash_skip_def)
  have i: "SourceApp.ID sample_head = ''editor''"
    by (simp add: sample_head_def)
  have p: "process_app sample_world \<lparr>LastUpdated = 0, Apps = Map.empty\<rparr> sample_head sample_state =
     Some \<lparr>newCatalog =
             \<lparr>LastUpdated = 100,
              Apps = [''editor'' \<mapsto>
                new_entry sample_head ''3.1'' ''https://example.org/files/editor-3.1.tar.gz''
                  ''cc33'' (- 1)]\<rparr>,
           changesCount = 1,
           fetched = [''https://example.org/files/editor-3.1.tar.gz'']\<rparr>"
    by (simp add: process_app_update [OF cs vs dl hs] i put_app_def log_fetch_def sample_state_def)
  have s: "sint (CatalogApp.Size
          (new_entry sample_head ''3.1'' ''https://example.org/files/editor-3.1.tar.gz''
             ''cc33'' (- 1))) = - 1"
    by (simp add: new_entry_def)
  from cs dl p s show ?thesis by blast
qed

text \<open>
  Claim C9, as the code has it. Run the reconciliation on a source list with
  distinct IDs, then run it again on the catalog file the first run left, with
  the same upstream responses (the clock may have moved). The second run
  returns, its new catalog has the same entries as the first run's new catalog,
  and its change count is zero. It calls \<^verbatim>\<open>saveCatalog\<close> exactly when the catalog
  file left by the first run holds no entry (the empty-prior-catalog rule of
  C6); when that file holds an entry, the second run writes nothing and the
  file is unchanged.
\<close>

theorem C9_second_run_changes_nothing:
  assumes "distinct (map SourceApp.ID sources)"
    and "main w sources file = Some r1"
  shows "\<exists>r2. main (w\<lparr>Today := d, Now := t\<rparr>) sources (catalog_json r1) = Some r2 \<and>
           Apps (newCatalog (final r2)) = Apps (newCatalog (final r1)) \<and>
           changesCount (final r2) = 0 \<and>
           (saved r2 \<longleftrightarrow> Apps (loadCatalog (catalog_json r1)) = Map.empty) \<and>
           (\<not> saved r2 \<longrightarrow> catalog_json r2 = catalog_json r1)"
proof -
  let ?w2 = "w\<lparr>Today := d, Now := t\<rparr>"
  let ?old = "loadCatalog file"
  let ?old2 = "loadCatalog (catalog_json r1)"
  note m1 = main_Some [OF assms(2)]
  from m1 have r1: "run_loop w ?old sources (initial_state w) = Some (final r1)" by simp
  have F: "\<forall>src \<in> set sources.
             Apps ?old2 (SourceApp.ID src) = Apps (newCatalog (final r1)) (SourceApp.ID src)"
  proof (cases "saved r1")
    case True
    with m1 have "catalog_json r1 = Some (newCatalog (final r1))" by simp
    then show ?thesis by (simp add: loadCatalog_def)
  next
    case False
    with m1 have f: "catalog_json r1 = file" and c: "changesCount (final r1) = 0" by simp_all
    from no_update_keeps_prior [OF assms(1) r1 c] f show ?thesis by simp
  qed
  from second_run_loop [OF assms(1) r1 F, where d' = d and t = t] obtain st2 where
    r2: "run_loop ?w2 ?old2 sources (initial_state ?w2) = Some st2"
    and c2: "changesCount st2 = 0"
    and a2: "Apps (newCatalog st2) = Apps (newCatalog (final r1))"
    by blast
  from r2 have "main ?w2 sources (catalog_json r1) \<noteq> None"
    by (simp add: main_def Let_def)
  then obtain r2' where m2: "main ?w2 sources (catalog_json r1) = Some r2'"
    by auto
  note s2 = main_Some [OF m2]
  from s2 r2 have f2: "final r2' = st2" by simp
  from s2 f2 c2 a2 m2 show ?thesis by auto
qed

theorem C9_witness:
  "distinct (map SourceApp.ID [sample_github, sample_head, sample_static]) \<and>
   (\<exists>r1 r2. main sample_world [sample_github, sample_head, sample_static] None = Some r1 \<and>
      changesCount (final r1) = 3 \<and> saved r1 \<and>
      Apps (loadCatalog (catalog_json r1)) \<noteq> Map.empty \<and>
      main (sample_world\<lparr>Today := ''2024.05.07'', Now := 200\<rparr>)
        [sample_github, sample_head, sample_static] (catalog_json r1) = Some r2 \<and>
      Apps (newCatalog (final r2)) = Apps (newCatalog (final r1)) \<and>
      changesCount (final r2) = 0 \<and> \<not> saved r2 \<and> catalog_json r2 = catalog_json r1)"
proof -
  have d: "distinct (map SourceApp.ID [sample_github, sample_head, sample_static])"
    by code_simp
  have np: "\<not> (\<exists>src \<in> set [sample_github, sample_head, sample_static].
                 checkStrategy sample_world src = Panic)"
    by code_simp
  then obtain r1 where
    m: "main sample_world [sample_github, sample_head, sample_static] None = Some r1"
    using main_None [of sample_world "[sample_github, sample_head, sample_static]" None]
    by fastforce
  have g: "length (filter (genuine_update sample_world (loadCatalog None))
             [sample_github, sample_head, sample_static]) = 3"
    by code_simp
  note s1 = main_Some [OF m]
  from s1 have r: "run_loop sample_world (loadCatalog None)
      [sample_github, sample_head, sample_static] (initial_state sample_world) = Some (final r1)"
    by simp
  from run_loop_changes [OF r] g have c: "changesCount (final r1) = 3"
    by (simp add: initial_state_def)
  with s1 have sv: "saved r1" and cj: "catalog_json r1 = Some (newCatalog (final r1))"
    by simp_all
  have gu: "genuine_update sample_world (loadCatalog None) sample_github" by code_simp
  have ne: "Apps (newCatalog (final r1)) (SourceApp.ID sample_github) \<noteq> None"
  proof -
    from run_loop_entry [OF d _ r, of sample_github] obtain s s' where
      p: "process_app sample_world (loadCatalog None) sample_github s = Some s'"
      and f: "Apps (newCatalog (final r1)) (SourceApp.ID sample_github) =
                Apps (newCatalog s') (SourceApp.ID sample_github)"
      by auto
    from process_app_change [OF gu, of s] p f show ?thesis
      by (auto simp: put_app_simps)
  qed
  then have nonempty: "Apps (loadCatalog (catalog_json r1)) \<noteq> Map.empty"
    by (auto simp: cj loadCatalog_def)
  from C9_second_run_changes_nothing [OF d m, where d = "''2024.05.07''" and t = 200]
    d m c sv nonempty
  show ?thesis by auto
qed

theorem C9_counterexample:
  "main offline_world [sample_github] None =
     Some \<lparr>catalog_json = Some \<lparr>LastUpdated = 100, Apps = Map.empty\<rparr>, saved = True,
           final = initial_state offline_world\<rparr> \<and>
   main (offline_world\<lparr>Today := ''2024.05.07'', Now := 200\<rparr>) [sample_github]
       (Some \<lparr>LastUpdated = 100, Apps = Map.empty\<rparr>) =
     Some \<lparr>catalog_json = Some \<lparr>LastUpdated = 200, Apps = Map.empty\<rparr>, saved = True,
           final = initial_state (offline_world\<lparr>Today := ''2024.05.07'', Now := 200\<rparr>)\<rparr> \<and>
   changesCount (initial_state (offline_world\<lparr>Today := ''2024.05.07'', Now := 200\<rparr>)) = 0"
proof -
  have cs: "checkStrategy offline_world sample_github = Err TransportError"
    by code_simp
  have cs2: "checkStrategy (offline_world\<lparr>Today := ''2024.05.07'', Now := 200\<rparr>) sample_github =
               Err TransportError"
    by code_simp
  have p: "process_app offline_world \<lparr>LastUpdated = 0, Apps = Map.empty\<rparr> sample_github st = Some st"
    for st
    by (simp add: process_app_strategy_error [OF cs])
  have p2: "process_app (offline_world\<lparr>Today := ''2024.05.07'', Now := 200\<rparr>)
              \<lparr>LastUpdated = 0, Apps = Map.empty\<rparr> sample_github st = Some st"
    for st
    by (simp add: process_app_strategy_error [OF cs2])
  have n: "newCatalog (initial_state offline_world) = \<lparr>LastUpdated = 100, Apps = Map.empty\<rparr>"
    by (simp add: initial_state_def offline_world_def sample_world_def)
  have n2: "newCatalog (initial_state (offline_world\<lparr>Today := ''2024.05.07'', Now := 200\<rparr>)) =
              \<lparr>LastUpdated = 200, Apps = Map.empty\<rparr>"
    by (simp add: initial_state_def)
  have c: "changesCount (initial_state w) = 0" for w
    by (simp add: initial_state_def)
  show ?thesis
    by (simp add: main_def loadCatalog_def saveCatalog_def p p2 n n2 c)
qed

text \<open>
  Claim C10, as the code has it. \<^verbatim>\<open>checkDirectHead\<close> compiles the pattern only
  after the metadata request has been answered with status 200. For a
  \<open>direct_url_head\<close> descriptor whose pattern does not compile: when the request
  fails or is answered with another status, version resolution returns an error
  for that application; when it is answered with status 200, version resolution
  panics, and every run whose source list holds the descriptor is aborted.
\<close>

theorem C10_bad_regex_panics_after_status_200:
  assumes "Strategy src = ''direct_url_head''"
    and "Compile w (cfg (Config src) ''regex'') = None"
  shows "checkStrategy w src =
           (if \<not> NewRequestOK w (cfg (Config src) ''url'') then Panic
            else case Do w (head_request (cfg (Config src) ''url'')) of
                   None \<Rightarrow> Err TransportError
                 | Some resp \<Rightarrow>
                     if StatusCode resp \<noteq> 200 then Err (StatusInvalid (StatusCode resp))
                     else Panic) \<and>
         (\<forall>resp. Do w (head_request (cfg (Config src) ''url'')) = Some resp \<and>
                 StatusCode resp = 200 \<and> src \<in> set sources \<longrightarrow>
            process_app w oldCatalog src st = None \<and> main w sources file = None)"
proof -
  have cs: "checkStrategy w src =
           (if \<not> NewRequestOK w (cfg (Config src) ''url'') then Panic
            else case Do w (head_request (cfg (Config src) ''url'')) of
                   None \<Rightarrow> Err TransportError
                 | Some resp \<Rightarrow>
                     if StatusCode resp \<noteq> 200 then Err (StatusInvalid (StatusCode resp))
                     else Panic)"
    using assms by (simp add: checkStrategy_def checkDirectHead_bad_regex)
  have "process_app w oldCatalog src st = None \<and> main w sources file = None"
    if "Do w (head_request (cfg (Config src) ''url'')) = Some resp"
      "StatusCode resp = 200" "src \<in> set sources" for resp
  proof -
    from cs that(1,2) have p: "checkStrategy w src = Panic" by simp
    from p that(3) have "\<exists>x \<in> set sources. checkStrategy w x = Panic" by blast
    then have "main w sources file = None" by (simp only: main_None)
    with p show ?thesis by (simp add: process_app_panic)
  qed
  with cs show ?thesis by blast
qed

theorem C10_witness:
  "Strategy bad_regex_app = ''direct_url_head'' \<and>
   Compile sample_world (cfg (Config bad_regex_app) ''regex'') = None \<and>
   NewRequestOK sample_world (cfg (Config bad_regex_app) ''url'') \<and>
   map_option StatusCode (Do sample_world (head_request (cfg (Config bad_regex_app) ''url'')))
     = Some 200 \<and>
   checkStrategy sample_world bad_regex_app = Panic \<and>
   process_app sample_world sample_old bad_regex_app sample_state = None \<and>
   main sample_world [sample_github, bad_regex_app, sample_static] (Some sample_old) = None"
proof -
  have h1: "Strategy bad_regex_app = ''direct_url_head''" by code_simp
  have h2: "Compile sample_world (cfg (Config bad_regex_app) ''regex'') = None" by code_simp
  have h3: "NewRequestOK sample_world (cfg (Config bad_regex_app) ''url'')" by code_simp
  have h4: "map_option StatusCode
              (Do sample_world (head_request (cfg (Config bad_regex_app) ''url''))) = Some 200"
    by code_simp
  then obtain resp where
    r: "Do sample_world (head_request (cfg (Config bad_regex_app) ''url'')) = Some resp"
      "StatusCode resp = 200"
    by auto
  have m: "bad_regex_app \<in> set [sample_github, bad_regex_app, sample_static]" by simp
  from C10_bad_regex_panics_after_status_200 [OF h1 h2,
      of "[sample_github, bad_regex_app, sample_static]" sample_old sample_state "Some sample_old"]
    r m h1 h2 h3 h4
  show ?thesis by auto
qed

theorem C10_counterexample:
  "Strategy bad_regex_unreachable_app = ''direct_url_head'' \<and>
   Compile sample_world (cfg (Config bad_regex_unreachable_app) ''regex'') = None \<and>
   checkStrategy sample_world bad_regex_unreachable_app = Err TransportError \<and>
   process_app sample_world sample_old bad_regex_unreachable_app sample_state =
     Some sample_state \<and>
   map_option saved (main sample_world [bad_regex_unreachable_app, sample_static] None)
     = Some True"
proof -
  have h1: "Strategy bad_regex_unreachable_app = ''direct_url_head''" by code_simp
  have h2: "Compile sample_world (cfg (Config bad_regex_unreachable_app) ''regex'') = None"
    by code_simp
  have cs: "checkStrategy sample_world bad_regex_unreachable_app = Err TransportError"
    by code_simp
  have o: "Apps sample_old (SourceApp.ID bad_regex_unreachable_app) = None"
    by (simp add: sample_old_def bad_regex_unreachable_app_def sample_head_def)
  have p: "process_app sample_world sample_old bad_regex_unreachable_app sample_state =
     Some sample_state"
    by (simp add: process_app_strategy_error [OF cs] o)
  have np: "\<not> (\<exists>src \<in> set [bad_regex_unreachable_app, sample_static].
                 checkStrategy sample_world src = Panic)"
    by code_simp
  then obtain r where
    m: "main sample_world [bad_regex_unreachable_app, sample_static] None = Some r"
    using main_None [of sample_world "[bad_regex_unreachable_app, sample_static]" None]
    by fastforce
  from main_Some [OF m] have "saved r" by (simp add: loadCatalog_def)
  with m have s: "map_option saved
      (main sample_world [bad_regex_unreachable_app, sample_static] None) = Some True"
    by simp
  from h1 h2 cs p s show ?thesis by blast
qed

end
